theory Spec2Isabelle
  imports Complex_Main
begin

section \<open>Values of the script\<close>

text \<open>
  The model covers the counter module (\<^verbatim>\<open>src/js/modules/counters.js\<close>), the viewport probe
  \<^verbatim>\<open>Helpers.isInViewport\<close> (\<^verbatim>\<open>src/js/core/config.js\<close>), the load handler
  (\<^verbatim>\<open>src/js/core/events.js\<close>) and the frame-based stat tween
  \<^verbatim>\<open>Animations.animateStatNumbers\<close> (\<^verbatim>\<open>src/js/modules/navbar.js\<close>).

  Numbers are exact: an integer result of \<^verbatim>\<open>parseInt\<close> is an \<open>int\<close>, and the running value
  \<^verbatim>\<open>current\<close> of a tween is a \<open>rat\<close>. The rounding of IEEE doubles is not part of the
  model, nor is the exponent notation in which numbers from \<open>10\<^sup>2\<^sup>1\<close> on are printed. Strings
  are lists of 8-bit characters, read as code units below 256.

  The runs of the page contain the actions of the counter module and of the load handler. The
  class \<^verbatim>\<open>animated\<close> is also set by \<^verbatim>\<open>Animations.animateStatNumbers\<close>; in the runs an
  element that another module has marked is an element that carries the marker already.
\<close>

subsection \<open>Number to string\<close>

definition digitChar :: "nat \<Rightarrow> char" where
  "digitChar d = ''0123456789'' ! d"

fun natToString :: "nat \<Rightarrow> string" where
  "natToString n = (if n < 10 then [digitChar n] else natToString (n div 10) @ [digitChar (n mod 10)])"

declare natToString.simps [simp del]

text \<open>\<^verbatim>\<open>String(n)\<close> of an integer-valued number: decimal digits, a leading minus sign below zero.\<close>

definition numberToString :: "int \<Rightarrow> string" where
  "numberToString i = (if i < 0 then CHR ''-'' # natToString (nat (- i)) else natToString (nat i))"

subsection \<open>\<^verbatim>\<open>parseInt\<close> without a radix\<close>

definition isWhiteSpace :: "char \<Rightarrow> bool" where
  "isWhiteSpace c \<longleftrightarrow> (of_char c :: nat) \<in> {9, 10, 11, 12, 13, 32, 160}"

definition isDigit :: "char \<Rightarrow> bool" where
  "isDigit c \<longleftrightarrow> 48 \<le> (of_char c :: nat) \<and> (of_char c :: nat) \<le> 57"

text \<open>The value of a character as a digit, at most 35; \<open>None\<close> for any other character.\<close>

definition digitValue :: "char \<Rightarrow> nat option" where
  "digitValue c =
     (let n = (of_char c :: nat) in
      if 48 \<le> n \<and> n \<le> 57 then Some (n - 48)
      else if 97 \<le> n \<and> n \<le> 122 then Some (n - 87)
      else if 65 \<le> n \<and> n \<le> 90 then Some (n - 55)
      else None)"

definition radixDigit :: "nat \<Rightarrow> char \<Rightarrow> bool" where
  "radixDigit r c = (case digitValue c of None \<Rightarrow> False | Some v \<Rightarrow> v < r)"

definition digitsValue :: "nat \<Rightarrow> string \<Rightarrow> nat" where
  "digitsValue r ds = foldl (\<lambda>acc c. acc * r + the (digitValue c)) 0 ds"

text \<open>
  \<^verbatim>\<open>parseInt(string)\<close>: leading white space is skipped, one sign is read, a prefix
  \<^verbatim>\<open>0x\<close> or \<^verbatim>\<open>0X\<close> selects radix 16, and the longest run of digits of the radix is the
  value. No digit at all gives \<^verbatim>\<open>NaN\<close>, which is \<open>None\<close> here.
\<close>

definition parseInt :: "string \<Rightarrow> int option" where
  "parseInt inputString =
     (let s = dropWhile isWhiteSpace inputString;
          neg = (s \<noteq> [] \<and> hd s = CHR ''-'');
          s = (if s \<noteq> [] \<and> (hd s = CHR ''+'' \<or> hd s = CHR ''-'') then tl s else s);
          hex = (take 2 s = ''0x'' \<or> take 2 s = ''0X'');
          r = (if hex then 16 else 10);
          s = (if hex then drop 2 s else s);
          z = takeWhile (radixDigit r) s
      in if z = [] then None
         else Some ((if neg then - 1 else 1) * int (digitsValue r z)))"

text \<open>
  \<^verbatim>\<open>parseInt(el.getAttribute('data-count'))\<close>: a missing attribute is \<^verbatim>\<open>null\<close>, which
  is converted to the string \<^verbatim>\<open>"null"\<close> and has no digit.
\<close>

definition parseIntAttr :: "string option \<Rightarrow> int option" where
  "parseIntAttr a = (case a of None \<Rightarrow> parseInt ''null'' | Some v \<Rightarrow> parseInt v)"

text \<open>\<^verbatim>\<open>text.replace(/\d+/g, '')\<close>: every digit is removed.\<close>

definition stripDigits :: "string \<Rightarrow> string" where
  "stripDigits txt = filter (\<lambda>c. \<not> isDigit c) txt"

section \<open>The page\<close>

record element =
  classList :: "string list"
  data_count :: "string option"
  textContent :: string
  rect_top :: rat
  rect_bottom :: rat

text \<open>
  The closure \<^verbatim>\<open>updateCounter\<close> of one tween: the variables it captures. The constant
  \<^verbatim>\<open>increment\<close> is \<^verbatim>\<open>target / 50\<close>.
\<close>

record tween =
  counterElement :: nat
  target :: int
  suffix :: string
  current :: rat

definition increment :: "tween \<Rightarrow> rat" where
  "increment tw = of_int (target tw) / 50"

text \<open>
  What the script does to the page and to the observer, in the order it does it:
  \<^item> \<open>Registered i\<close> and \<open>Unregistered i\<close>: \<^verbatim>\<open>observer.observe(i)\<close> and
    \<^verbatim>\<open>observer.unobserve(i)\<close>;
  \<^item> \<open>Probed i b\<close>: \<^verbatim>\<open>checkCounters\<close> evaluated the viewport probe of \<open>i\<close> with result \<open>b\<close>;
  \<^item> \<open>Delivered i b\<close>: the callback of the observer handled an entry with target \<open>i\<close> and
    \<^verbatim>\<open>isIntersecting\<close> equal to \<open>b\<close>;
  \<^item> \<open>Marked i\<close> and \<open>Unmarked i\<close>: \<^verbatim>\<open>classList.add\<close> and \<^verbatim>\<open>classList.remove\<close> on \<open>i\<close>,
    which the script only calls with \<^verbatim>\<open>'animated'\<close>;
  \<^item> \<open>TweenStarted i\<close>: \<^verbatim>\<open>animateCounter\<close> passed its two guards on \<open>i\<close> and set the marker, so
    a tween of \<open>i\<close> begins;
  \<^item> \<open>TextSet i txt\<close>: \<open>txt\<close> was assigned to \<^verbatim>\<open>textContent\<close> of \<open>i\<close>;
  \<^item> \<open>Scheduled i\<close>: \<^verbatim>\<open>setTimeout\<close> was called with the closure of a tween of \<open>i\<close>.
\<close>

datatype event =
    Registered nat
  | Unregistered nat
  | Probed nat bool
  | Delivered nat bool
  | Marked nat
  | Unmarked nat
  | TweenStarted nat
  | TextSet nat string
  | Scheduled nat

datatype error = TypeError

text \<open>
  Elements are named by numbers. \<open>counters\<close> is \<^verbatim>\<open>Counters.counters\<close> and \<open>observer\<close> is
  \<^verbatim>\<open>Counters.observer\<close> with the set of targets it watches; both are undefined (\<open>None\<close>)
  until the script assigns them. \<open>timers\<close> holds the callbacks passed to
  \<^verbatim>\<open>setTimeout\<close> that have not run yet, oldest first (all have the same delay).
\<close>

record page =
  elements :: "nat \<Rightarrow> element"
  innerHeight :: rat
  clientHeight :: rat
  hasIntersectionObserver :: bool
  counters :: "nat list option"
  observer :: "nat set option"
  timers :: "tween list"
  trace :: "event list"

definition emit :: "event \<Rightarrow> page \<Rightarrow> page" where
  "emit ev s = s\<lparr>trace := trace s @ [ev]\<rparr>"

definition hasClass :: "string \<Rightarrow> element \<Rightarrow> bool" where
  "hasClass c e \<longleftrightarrow> c \<in> set (classList e)"

definition classListAdd :: "nat \<Rightarrow> string \<Rightarrow> page \<Rightarrow> page" where
  "classListAdd i c s =
     emit (Marked i)
       (s\<lparr>elements := (elements s)(i := (elements s i)
            \<lparr>classList := (if c \<in> set (classList (elements s i)) then classList (elements s i)
                           else classList (elements s i) @ [c])\<rparr>)\<rparr>)"

definition classListRemove :: "nat \<Rightarrow> string \<Rightarrow> page \<Rightarrow> page" where
  "classListRemove i c s =
     emit (Unmarked i)
       (s\<lparr>elements := (elements s)(i := (elements s i)
            \<lparr>classList := removeAll c (classList (elements s i))\<rparr>)\<rparr>)"

definition setTextContent :: "nat \<Rightarrow> string \<Rightarrow> page \<Rightarrow> page" where
  "setTextContent i txt s =
     emit (TextSet i txt) (s\<lparr>elements := (elements s)(i := (elements s i)\<lparr>textContent := txt\<rparr>)\<rparr>)"

definition setTimeout :: "tween \<Rightarrow> page \<Rightarrow> page" where
  "setTimeout tw s = emit (Scheduled (counterElement tw)) (s\<lparr>timers := timers s @ [tw]\<rparr>)"

definition observe :: "nat \<Rightarrow> page \<Rightarrow> page" where
  "observe i s = emit (Registered i) (s\<lparr>observer := map_option (insert i) (observer s)\<rparr>)"

definition unobserve :: "nat \<Rightarrow> page \<Rightarrow> page" where
  "unobserve i s = emit (Unregistered i) (s\<lparr>observer := map_option (\<lambda>ts. ts - {i}) (observer s)\<rparr>)"

section \<open>The viewport probe\<close>

text \<open>\<^verbatim>\<open>window.innerHeight || document.documentElement.clientHeight\<close>\<close>

definition viewportHeight :: "page \<Rightarrow> rat" where
  "viewportHeight s = (if innerHeight s \<noteq> 0 then innerHeight s else clientHeight s)"

definition isInViewport :: "page \<Rightarrow> nat \<Rightarrow> rat \<Rightarrow> bool" where
  "isInViewport s el offset =
     (rect_top (elements s el) \<le> viewportHeight s * (85 / 100) + offset \<and>
      rect_bottom (elements s el) \<ge> 0 - offset)"

section \<open>The counter module\<close>

text \<open>One run of the callback \<^verbatim>\<open>updateCounter\<close> of a tween.\<close>

definition updateCounter :: "tween \<Rightarrow> page \<Rightarrow> page" where
  "updateCounter tw s =
     (let c = current tw + increment tw in
      if c < of_int (target tw)
      then setTimeout (tw\<lparr>current := c\<rparr>)
             (setTextContent (counterElement tw) (numberToString \<lfloor>c\<rfloor> @ suffix tw) s)
      else setTextContent (counterElement tw) (numberToString (target tw) @ suffix tw) s)"

definition animateCounter :: "nat \<Rightarrow> page \<Rightarrow> page" where
  "animateCounter i s =
     (if hasClass ''animated'' (elements s i) then s
      else case parseIntAttr (data_count (elements s i)) of
             None \<Rightarrow> s
           | Some t \<Rightarrow>
               updateCounter
                 \<lparr>counterElement = i, target = t,
                  suffix = stripDigits (textContent (elements s i)), current = 0\<rparr>
                 (emit (TweenStarted i) (classListAdd i ''animated'' s)))"

definition animateAll :: "page \<Rightarrow> error + page" where
  "animateAll s = (case counters s of None \<Rightarrow> Inl TypeError | Some cs \<Rightarrow> Inr (fold animateCounter cs s))"

definition setupObserver :: "page \<Rightarrow> error + page" where
  "setupObserver s =
     (if \<not> hasIntersectionObserver s then animateAll s
      else case counters s of
             None \<Rightarrow> Inl TypeError
           | Some cs \<Rightarrow> Inr (fold observe cs (s\<lparr>observer := Some {}\<rparr>)))"

text \<open>The body of the loop of \<^verbatim>\<open>checkCounters\<close> for one counter.\<close>

definition checkCounter :: "nat \<Rightarrow> page \<Rightarrow> page" where
  "checkCounter i s =
     (let b = isInViewport s i 100; s1 = emit (Probed i b) s in
      if b then (let s2 = animateCounter i s1 in
                 if observer s2 \<noteq> None then unobserve i s2 else s2)
      else s1)"

definition checkCounters :: "page \<Rightarrow> error + page" where
  "checkCounters s = (case counters s of None \<Rightarrow> Inl TypeError | Some cs \<Rightarrow> Inr (fold checkCounter cs s))"

text \<open>
  \<^verbatim>\<open>element.querySelectorAll('.stat-number[data-count]')\<close>, where \<open>scope\<close> lists the
  descendants of \<^verbatim>\<open>element\<close> in document order.
\<close>

definition querySelectorAll :: "nat list \<Rightarrow> page \<Rightarrow> nat list" where
  "querySelectorAll scope s =
     filter (\<lambda>i. hasClass ''stat-number'' (elements s i) \<and> data_count (elements s i) \<noteq> None) scope"

definition init :: "nat list \<Rightarrow> page \<Rightarrow> error + page" where
  "init scope s =
     (case setupObserver (s\<lparr>counters := Some (querySelectorAll scope s)\<rparr>) of
        Inl e \<Rightarrow> Inl e
      | Inr s1 \<Rightarrow> checkCounters s1)"

text \<open>The callback given to the observer, for one entry and for the list of entries.\<close>

definition observerEntry :: "nat \<times> bool \<Rightarrow> error + page \<Rightarrow> error + page" where
  "observerEntry entry r =
     (case r of
        Inl e \<Rightarrow> Inl e
      | Inr s \<Rightarrow>
          (let s1 = emit (Delivered (fst entry) (snd entry)) s in
           if snd entry
           then (let s2 = animateCounter (fst entry) s1 in
                 if observer s2 = None then Inl TypeError else Inr (unobserve (fst entry) s2))
           else Inr s1))"

definition observerCallback :: "(nat \<times> bool) list \<Rightarrow> page \<Rightarrow> error + page" where
  "observerCallback entries s = fold observerEntry entries (Inr s)"

definition resetCounter :: "nat \<Rightarrow> page \<Rightarrow> page" where
  "resetCounter i s =
     (let s1 = classListRemove i ''animated'' s in
      setTextContent i (''0'' @ stripDigits (textContent (elements s1 i))) s1)"

definition reset :: "page \<Rightarrow> error + page" where
  "reset s =
     (case counters s of
        None \<Rightarrow> Inl TypeError
      | Some cs \<Rightarrow>
          (let s1 = fold resetCounter cs s in
           Inr (if observer s1 \<noteq> None then fold observe cs s1 else s1)))"

text \<open>
  \<^verbatim>\<open>EventManager.onWindowLoad\<close>. Its other statement schedules
  \<^verbatim>\<open>Animations.handleScrollAnimations\<close>, which only adds the class \<^verbatim>\<open>visible\<close> to
  elements of class \<^verbatim>\<open>fade-in\<close> or \<^verbatim>\<open>slide-up\<close>.
\<close>

definition onWindowLoad :: "page \<Rightarrow> error + page" where
  "onWindowLoad s = animateAll s"

text \<open>The event loop runs the oldest pending timer callback.\<close>

definition fireTimer :: "page \<Rightarrow> page" where
  "fireTimer s = (case timers s of [] \<Rightarrow> s | tw # rest \<Rightarrow> updateCounter tw (s\<lparr>timers := rest\<rparr>))"

primrec runTimers :: "nat \<Rightarrow> page \<Rightarrow> page" where
  "runTimers 0 s = s"
| "runTimers (Suc n) s = runTimers n (fireTimer s)"

section \<open>The frame-based tween of the stat cards\<close>






section \<open>Runs of the page\<close>

text \<open>
  What can happen after the script is loaded: the oldest timer fires, the observer reports
  entries (a target and whether it intersects), the window finishes loading, or some caller
  invokes \<^verbatim>\<open>Counters.reset\<close>.
\<close>

datatype action =
    TimerFires
  | ObserverFires "(nat \<times> bool) list"
  | WindowLoads
  | ResetCalled

primrec perform :: "action \<Rightarrow> page \<Rightarrow> error + page" where
  "perform TimerFires s = Inr (fireTimer s)"
| "perform (ObserverFires entries) s = observerCallback entries s"
| "perform WindowLoads s = onWindowLoad s"
| "perform ResetCalled s = reset s"

primrec run :: "action list \<Rightarrow> page \<Rightarrow> error + page" where
  "run [] s = Inr s"
| "run (a # as) s = (case perform a s of Inl e \<Rightarrow> Inl e | Inr s1 \<Rightarrow> run as s1)"

text \<open>
  The life of a page: \<^verbatim>\<open>Counters.init\<close> on the elements of \<open>scope\<close>, then the actions.
  The page keeps the one observer that \<^verbatim>\<open>Counters.observer\<close> refers to; an observer that a
  second call of \<^verbatim>\<open>Counters.init\<close> would replace is not followed.
\<close>

definition session :: "nat list \<Rightarrow> action list \<Rightarrow> page \<Rightarrow> error + page" where
  "session scope acts s = (case init scope s of Inl e \<Rightarrow> Inl e | Inr s1 \<Rightarrow> run acts s1)"

section \<open>Reading the trace\<close>

text \<open>The texts written to element \<open>i\<close>, in order.\<close>

primrec textsOf :: "nat \<Rightarrow> event list \<Rightarrow> string list" where
  "textsOf i [] = []"
| "textsOf i (ev # evs) =
     (case ev of TextSet j txt \<Rightarrow> (if j = i then txt # textsOf i evs else textsOf i evs)
               | _ \<Rightarrow> textsOf i evs)"

text \<open>How many tweens were started on element \<open>i\<close>.\<close>

definition tweenStarts :: "nat \<Rightarrow> event list \<Rightarrow> nat" where
  "tweenStarts i evs = length (filter (\<lambda>ev. ev = TweenStarted i) evs)"

text \<open>The elements whose viewport probe was evaluated, in order.\<close>

primrec probed :: "event list \<Rightarrow> nat list" where
  "probed [] = []"
| "probed (ev # evs) = (case ev of Probed i b \<Rightarrow> i # probed evs | _ \<Rightarrow> probed evs)"

text \<open>The elements handed to the observer, in order.\<close>

primrec registered :: "event list \<Rightarrow> nat list" where
  "registered [] = []"
| "registered (ev # evs) = (case ev of Registered i \<Rightarrow> i # registered evs | _ \<Rightarrow> registered evs)"

text \<open>
  A tween of element \<open>i\<close> was started directly after the event \<open>ev\<close>: the marker and the
  start follow it at once. After \<open>Probed i True\<close> this is a reveal by the viewport probe, after
  \<open>Delivered i True\<close> a reveal by the observer.
\<close>

fun revealedAfter :: "event \<Rightarrow> nat \<Rightarrow> event list \<Rightarrow> bool" where
  "revealedAfter ev i (a # b # c # evs) =
     ((a = ev \<and> b = Marked i \<and> c = TweenStarted i) \<or> revealedAfter ev i (b # c # evs))"
| "revealedAfter ev i evs = False"

text \<open>The trace of a result; nothing for an error.\<close>

definition traceOf :: "error + page \<Rightarrow> event list" where
  "traceOf r = (case r of Inl e \<Rightarrow> [] | Inr s \<Rightarrow> trace s)"

text \<open>The targets the observer of a result watches; \<open>None\<close> without an observer or for an error.\<close>

definition observedOf :: "error + page \<Rightarrow> nat set option" where
  "observedOf r = (case r of Inl e \<Rightarrow> None | Inr s \<Rightarrow> observer s)"

text \<open>At most one tween of element \<open>i\<close> was started after the first \<open>c0\<close>, and then the marker is set.\<close>

definition once :: "nat \<Rightarrow> nat \<Rightarrow> page \<Rightarrow> bool" where
  "once i c0 s \<longleftrightarrow>
     tweenStarts i (trace s) = c0 \<or>
     (tweenStarts i (trace s) = Suc c0 \<and> hasClass ''animated'' (elements s i))"

text \<open>The pending timer callbacks that belong to element \<open>i\<close>.\<close>

definition ownTimers :: "nat \<Rightarrow> page \<Rightarrow> tween list" where
  "ownTimers i s = filter (\<lambda>tw. counterElement tw = i) (timers s)"

text \<open>An element that carries no marker and has no tween in flight.\<close>

definition pending :: "nat \<Rightarrow> page \<Rightarrow> bool" where
  "pending i s \<longleftrightarrow> \<not> hasClass ''animated'' (elements s i) \<and> ownTimers i s = []"

text \<open>
  The numbers a tween towards \<open>t\<close> shows: for a positive target the floors of the first 49
  multiples of \<open>t / 50\<close> and then \<open>t\<close>; otherwise \<open>t\<close> at once.
\<close>

definition frameValues :: "int \<Rightarrow> int list" where
  "frameValues t =
     (if 0 < t then map (\<lambda>k. \<lfloor>of_nat k * (of_int t :: rat) / 50\<rfloor>) [1..<50] @ [t] else [t])"

definition frameTexts :: "int \<Rightarrow> string \<Rightarrow> string list" where
  "frameTexts t sfx = map (\<lambda>v. numberToString v @ sfx) (frameValues t)"

text \<open>
  The state of one reveal cycle of element \<open>i\<close> with target \<open>t\<close> and suffix \<open>sfx\<close>, where
  \<open>base\<close> are the texts written and \<open>c0\<close> the tweens started before the cycle: either the
  element is not marked and untouched, or it is marked, one tween has been started, the first
  \<open>k\<close> frames have been written, and the tween is pending with \<open>k\<close> increments added or, after
  the last frame, gone.
\<close>

definition cycle :: "nat \<Rightarrow> int \<Rightarrow> string \<Rightarrow> string list \<Rightarrow> nat \<Rightarrow> page \<Rightarrow> bool" where
  "cycle i t sfx base c0 s \<longleftrightarrow>
     (if hasClass ''animated'' (elements s i)
      then tweenStarts i (trace s) = Suc c0 \<and>
           (\<exists>k. 1 \<le> k \<and> k \<le> length (frameValues t) \<and>
                textsOf i (trace s) = base @ take k (frameTexts t sfx) \<and>
                (if k < length (frameValues t)
                 then ownTimers i s =
                        [\<lparr>counterElement = i, target = t, suffix = sfx,
                          current = of_nat k * of_int t / 50\<rparr>]
                 else ownTimers i s = [] \<and>
                      textContent (elements s i) = numberToString t @ sfx))
      else tweenStarts i (trace s) = c0 \<and> textsOf i (trace s) = base \<and> ownTimers i s = [] \<and>
           parseIntAttr (data_count (elements s i)) = Some t \<and>
           stripDigits (textContent (elements s i)) = sfx)"

text \<open>Every pending timer belongs to a tween with a positive target.\<close>

definition ticking :: "page \<Rightarrow> bool" where
  "ticking s \<longleftrightarrow> (\<forall>tw \<in> set (timers s). 0 < target tw)"



section \<open>Example pages\<close>

definition statElement :: "string \<Rightarrow> string \<Rightarrow> rat \<Rightarrow> rat \<Rightarrow> element" where
  "statElement dc txt y1 y2 =
     \<lparr>classList = [''stat-number''], data_count = Some dc, textContent = txt,
      rect_top = y1, rect_bottom = y2\<rparr>"

text \<open>
  A window 1000 pixels high. Element 0 shows \<^verbatim>\<open>1500+\<close> near the top of the window, element 1
  has a target that is no number, element 2 lies 900 pixels down, element 3 lies far below the
  window.
\<close>

definition exampleElements :: "nat \<Rightarrow> element" where
  "exampleElements i =
     (if i = 0 then statElement ''1500'' ''1500+'' 100 150
      else if i = 1 then statElement ''abc'' ''abc'' 200 250
      else if i = 2 then statElement ''24'' ''24/7'' 900 1000
      else statElement ''7'' ''0'' 3000 3050)"

definition examplePage :: "bool \<Rightarrow> page" where
  "examplePage io =
     \<lparr>elements = exampleElements, innerHeight = 1000, clientHeight = 1000,
      hasIntersectionObserver = io, counters = None, observer = None, timers = [], trace = []\<rparr>"

section \<open>Fields after the primitive operations\<close>

lemma emit_fields [simp]:
  "elements (emit ev s) = elements s" "timers (emit ev s) = timers s"
  "trace (emit ev s) = trace s @ [ev]" "counters (emit ev s) = counters s"
  "observer (emit ev s) = observer s"
  "hasIntersectionObserver (emit ev s) = hasIntersectionObserver s"
  "innerHeight (emit ev s) = innerHeight s" "clientHeight (emit ev s) = clientHeight s"
  by (simp_all add: emit_def)

lemma setTextContent_fields [simp]:
  "elements (setTextContent i txt s) = (elements s)(i := (elements s i)\<lparr>textContent := txt\<rparr>)"
  "timers (setTextContent i txt s) = timers s"
  "trace (setTextContent i txt s) = trace s @ [TextSet i txt]"
  "counters (setTextContent i txt s) = counters s"
  "observer (setTextContent i txt s) = observer s"
  "hasIntersectionObserver (setTextContent i txt s) = hasIntersectionObserver s"
  "innerHeight (setTextContent i txt s) = innerHeight s"
  "clientHeight (setTextContent i txt s) = clientHeight s"
  by (simp_all add: setTextContent_def)

lemma setTimeout_fields [simp]:
  "elements (setTimeout tw s) = elements s"
  "timers (setTimeout tw s) = timers s @ [tw]"
  "trace (setTimeout tw s) = trace s @ [Scheduled (counterElement tw)]"
  "counters (setTimeout tw s) = counters s"
  "observer (setTimeout tw s) = observer s"
  "hasIntersectionObserver (setTimeout tw s) = hasIntersectionObserver s"
  "innerHeight (setTimeout tw s) = innerHeight s"
  "clientHeight (setTimeout tw s) = clientHeight s"
  by (simp_all add: setTimeout_def)

lemma classListAdd_fields [simp]:
  "elements (classListAdd i c s) = (elements s)(i := (elements s i)
      \<lparr>classList := (if c \<in> set (classList (elements s i)) then classList (elements s i)
                     else classList (elements s i) @ [c])\<rparr>)"
  "timers (classListAdd i c s) = timers s"
  "trace (classListAdd i c s) = trace s @ [Marked i]"
  "counters (classListAdd i c s) = counters s"
  "observer (classListAdd i c s) = observer s"
  "hasIntersectionObserver (classListAdd i c s) = hasIntersectionObserver s"
  "innerHeight (classListAdd i c s) = innerHeight s"
  "clientHeight (classListAdd i c s) = clientHeight s"
  by (simp_all add: classListAdd_def)

lemma classListRemove_fields [simp]:
  "elements (classListRemove i c s) = (elements s)(i := (elements s i)
      \<lparr>classList := removeAll c (classList (elements s i))\<rparr>)"
  "timers (classListRemove i c s) = timers s"
  "trace (classListRemove i c s) = trace s @ [Unmarked i]"
  "counters (classListRemove i c s) = counters s"
  "observer (classListRemove i c s) = observer s"
  "hasIntersectionObserver (classListRemove i c s) = hasIntersectionObserver s"
  "innerHeight (classListRemove i c s) = innerHeight s"
  "clientHeight (classListRemove i c s) = clientHeight s"
  by (simp_all add: classListRemove_def)

lemma observe_fields [simp]:
  "elements (observe i s) = elements s" "timers (observe i s) = timers s"
  "trace (observe i s) = trace s @ [Registered i]" "counters (observe i s) = counters s"
  "observer (observe i s) = map_option (insert i) (observer s)"
  "hasIntersectionObserver (observe i s) = hasIntersectionObserver s"
  "innerHeight (observe i s) = innerHeight s" "clientHeight (observe i s) = clientHeight s"
  by (simp_all add: observe_def)

lemma unobserve_fields [simp]:
  "elements (unobserve i s) = elements s" "timers (unobserve i s) = timers s"
  "trace (unobserve i s) = trace s @ [Unregistered i]" "counters (unobserve i s) = counters s"
  "observer (unobserve i s) = map_option (\<lambda>ts. ts - {i}) (observer s)"
  "hasIntersectionObserver (unobserve i s) = hasIntersectionObserver s"
  "innerHeight (unobserve i s) = innerHeight s" "clientHeight (unobserve i s) = clientHeight s"
  by (simp_all add: unobserve_def)

lemma textsOf_append [simp]: "textsOf i (xs @ ys) = textsOf i xs @ textsOf i ys"
  by (induction xs) (auto split: event.splits)

lemma tweenStarts_append [simp]: "tweenStarts i (xs @ ys) = tweenStarts i xs + tweenStarts i ys"
  by (simp add: tweenStarts_def)

lemma tweenStarts_Cons [simp]:
  "tweenStarts i (ev # evs) = (if ev = TweenStarted i then 1 else 0) + tweenStarts i evs"
  by (simp add: tweenStarts_def)

lemma tweenStarts_Nil [simp]: "tweenStarts i [] = 0"
  by (simp add: tweenStarts_def)

lemma ownTimers_fields [simp]:
  "ownTimers i (emit ev s) = ownTimers i s"
  "ownTimers i (setTextContent j txt s) = ownTimers i s"
  "ownTimers i (classListAdd j c s) = ownTimers i s"
  "ownTimers i (classListRemove j c s) = ownTimers i s"
  "ownTimers i (observe j s) = ownTimers i s"
  "ownTimers i (unobserve j s) = ownTimers i s"
  "ownTimers i (setTimeout tw s) = ownTimers i s @ (if counterElement tw = i then [tw] else [])"
  by (simp_all add: ownTimers_def)

lemma hasClass_textContent [simp]: "hasClass c (e\<lparr>textContent := txt\<rparr>) = hasClass c e"
  by (simp add: hasClass_def)

lemma length_frameValues: "length (frameValues t) = (if 0 < t then 50 else 1)"
  by (simp add: frameValues_def)

lemma frameValues_nth:
  "0 < t \<Longrightarrow> k < 49 \<Longrightarrow> frameValues t ! k = \<lfloor>of_nat (Suc k) * (of_int t :: rat) / 50\<rfloor>"
  by (simp add: frameValues_def nth_append)


lemma frameValues_nonpos: "\<not> 0 < t \<Longrightarrow> frameValues t = [t]"
  by (simp add: frameValues_def)

lemma length_frameTexts [simp]: "length (frameTexts t sfx) = length (frameValues t)"
  by (simp add: frameTexts_def)

lemma frameTexts_nth:
  "k < length (frameValues t) \<Longrightarrow> frameTexts t sfx ! k = numberToString (frameValues t ! k) @ sfx"
  by (simp add: frameTexts_def)

lemma step_current:
  "(of_nat k * of_int t / 50 + of_int t / 50 :: rat) = of_nat (Suc k) * of_int t / 50"
  by (simp add: field_simps)

lemma step_below: "0 < t \<Longrightarrow> (of_nat (Suc k) * of_int t / 50 < (of_int t :: rat)) \<longleftrightarrow> Suc k < 50"
proof -
  assume t: "0 < t"
  have "(of_nat (Suc k) * of_int t / 50 < (of_int t :: rat)) \<longleftrightarrow>
        (of_nat (Suc k) * of_int t < (50 :: rat) * of_int t)"
    by (simp add: field_simps)
  also have "\<dots> \<longleftrightarrow> (of_nat (Suc k) :: rat) < 50"
    using t by (simp only: mult_less_cancel_right_pos of_int_0_less_iff)
  also have "\<dots> \<longleftrightarrow> Suc k < 50"
    by (metis of_nat_less_iff of_nat_numeral)
  finally show ?thesis .
qed


subsection \<open>One reveal cycle\<close>


lemma cycle_cong:
  assumes "elements s' i = elements s i" "ownTimers i s' = ownTimers i s"
    "textsOf i (trace s') = textsOf i (trace s)"
    "tweenStarts i (trace s') = tweenStarts i (trace s)"
  shows "cycle i t sfx base c0 s' = cycle i t sfx base c0 s"
  unfolding cycle_def assms ..





lemma updateCounter_marker [simp]:
  "hasClass c (elements (updateCounter tw s) i) = hasClass c (elements s i)"
  by (simp add: updateCounter_def Let_def)

lemma updateCounter_starts [simp]:
  "tweenStarts i (trace (updateCounter tw s)) = tweenStarts i (trace s)"
  by (simp add: updateCounter_def Let_def)

lemma updateCounter_own_running:
  assumes "0 < t" "Suc k < 50"
  shows "updateCounter \<lparr>counterElement = i, target = t, suffix = sfx,
                         current = of_nat k * of_int t / 50\<rparr> s =
         setTimeout \<lparr>counterElement = i, target = t, suffix = sfx,
                      current = of_nat (Suc k) * of_int t / 50\<rparr>
           (setTextContent i (frameTexts t sfx ! k) s)"
proof -
  have "frameTexts t sfx ! k = numberToString \<lfloor>of_nat (Suc k) * (of_int t :: rat) / 50\<rfloor> @ sfx"
    using assms by (simp add: frameTexts_nth length_frameValues frameValues_nth)
  then show ?thesis
    using step_below [OF assms(1), of k] assms(2)
    by (simp add: updateCounter_def Let_def increment_def step_current)
qed



lemma animateCounter_marked: "hasClass ''animated'' (elements s i) \<Longrightarrow> animateCounter i s = s"
  by (simp add: animateCounter_def)

lemma animateCounter_unparsable:
  "parseIntAttr (data_count (elements s i)) = None \<Longrightarrow> animateCounter i s = s"
  by (simp add: animateCounter_def)

lemma animateCounter_start:
  assumes "\<not> hasClass ''animated'' (elements s i)"
    "parseIntAttr (data_count (elements s i)) = Some t"
  shows "animateCounter i s =
         updateCounter \<lparr>counterElement = i, target = t,
                         suffix = stripDigits (textContent (elements s i)), current = 0\<rparr>
           (emit (TweenStarted i) (classListAdd i ''animated'' s))"
  using assms by (simp add: animateCounter_def)

lemma animateCounter_other:
  assumes "j \<noteq> i"
  shows "elements (animateCounter j s) i = elements s i"
    and "ownTimers i (animateCounter j s) = ownTimers i s"
    and "textsOf i (trace (animateCounter j s)) = textsOf i (trace s)"
    and "tweenStarts i (trace (animateCounter j s)) = tweenStarts i (trace s)"
  using assms
  by (simp_all add: animateCounter_def updateCounter_def Let_def split: option.splits)

lemma updateCounter_zero_running:
  assumes "0 < t"
  shows "updateCounter \<lparr>counterElement = i, target = t, suffix = sfx, current = 0\<rparr> s =
         setTimeout \<lparr>counterElement = i, target = t, suffix = sfx,
                      current = of_nat 1 * of_int t / 50\<rparr>
           (setTextContent i (frameTexts t sfx ! 0) s)"
  using updateCounter_own_running [OF assms, of 0 i sfx s] by simp

lemma updateCounter_zero_nonpos:
  assumes "\<not> 0 < t"
  shows "updateCounter \<lparr>counterElement = i, target = t, suffix = sfx, current = 0\<rparr> s =
         setTextContent i (numberToString t @ sfx) s"
proof -
  have "\<not> (of_int t / 50 < (of_int t :: rat))"
    using assms by (simp add: field_simps)
  then show ?thesis
    by (simp add: updateCounter_def Let_def increment_def)
qed

lemma hasClass_add [simp]:
  "hasClass c (e\<lparr>classList := (if c \<in> set (classList e) then classList e else classList e @ [c])\<rparr>)"
  by (simp add: hasClass_def)



lemma cycle_observe [simp]: "cycle i t sfx base c0 (observe j s) = cycle i t sfx base c0 s"
  by (intro cycle_cong) simp_all

lemma cycle_unobserve [simp]: "cycle i t sfx base c0 (unobserve j s) = cycle i t sfx base c0 s"
  by (intro cycle_cong) simp_all

lemma cycle_fields [simp]:
  "cycle i t sfx base c0 (s\<lparr>observer := ob\<rparr>) = cycle i t sfx base c0 s"
  "cycle i t sfx base c0 (s\<lparr>counters := cs\<rparr>) = cycle i t sfx base c0 s"
  by (simp_all add: cycle_def ownTimers_def)

subsection \<open>The marker and the queue along the operations\<close>


lemma animateCounter_sets_marker:
  "parseIntAttr (data_count (elements s i)) = Some t \<Longrightarrow>
   hasClass ''animated'' (elements (animateCounter i s) i)"
  by (simp add: animateCounter_def)

lemma fireTimer_marker [simp]:
  "hasClass c (elements (fireTimer s) i) = hasClass c (elements s i)"
  by (simp add: fireTimer_def split: list.splits)

lemma ticking_updateCounter:
  "ticking s \<Longrightarrow> (current tw + increment tw < of_int (target tw) \<Longrightarrow> 0 < target tw) \<Longrightarrow>
   ticking (updateCounter tw s)"
  by (auto simp: ticking_def updateCounter_def Let_def)


lemma ticking_fireTimer: "ticking s \<Longrightarrow> ticking (fireTimer s)"
  by (auto simp: fireTimer_def split: list.splits intro!: ticking_updateCounter)
     (simp_all add: ticking_def)

subsection \<open>Properties kept by every operation\<close>

lemma updateCounter_globals [simp]:
  "counters (updateCounter tw s) = counters s"
  "observer (updateCounter tw s) = observer s"
  "hasIntersectionObserver (updateCounter tw s) = hasIntersectionObserver s"
  by (simp_all add: updateCounter_def Let_def)

lemma animateCounter_globals [simp]:
  "counters (animateCounter i s) = counters s"
  "observer (animateCounter i s) = observer s"
  "hasIntersectionObserver (animateCounter i s) = hasIntersectionObserver s"
  by (simp_all add: animateCounter_def split: option.splits)

lemma fireTimer_globals [simp]:
  "counters (fireTimer s) = counters s"
  "observer (fireTimer s) = observer s"
  "hasIntersectionObserver (fireTimer s) = hasIntersectionObserver s"
  by (simp_all add: fireTimer_def split: list.splits)

lemma fold_keeps:
  assumes "\<And>x s. P s \<Longrightarrow> P (f x s)" "P s"
  shows "P (fold f xs s)"
  using assms(2) by (induction xs arbitrary: s) (simp_all add: assms(1))

lemma checkCounter_keeps:
  assumes "\<And>j s. P s \<Longrightarrow> P (animateCounter j s)"
    and "\<And>j s. P s \<Longrightarrow> P (unobserve j s)"
    and "\<And>j b s. P s \<Longrightarrow> P (emit (Probed j b) s)"
    and "P s"
  shows "P (checkCounter i s)"
  using assms by (simp add: checkCounter_def Let_def)

lemma observerEntry_keeps:
  assumes "\<And>j s. P s \<Longrightarrow> P (animateCounter j s)"
    and "\<And>j s. P s \<Longrightarrow> P (unobserve j s)"
    and "\<And>j b s. P s \<Longrightarrow> P (emit (Delivered j b) s)"
    and "case r of Inl e \<Rightarrow> True | Inr s \<Rightarrow> P s"
  shows "case observerEntry entry r of Inl e \<Rightarrow> True | Inr s \<Rightarrow> P s"
  using assms by (auto simp: observerEntry_def Let_def split: sum.splits)

lemma observerCallback_keeps:
  assumes "\<And>j s. P s \<Longrightarrow> P (animateCounter j s)"
    and "\<And>j s. P s \<Longrightarrow> P (unobserve j s)"
    and "\<And>j b s. P s \<Longrightarrow> P (emit (Delivered j b) s)"
    and "P s" "observerCallback entries s = Inr s'"
  shows "P s'"
proof -
  have "case fold observerEntry entries (Inr s) of Inl e \<Rightarrow> True | Inr s \<Rightarrow> P s"
    by (rule fold_keeps [where P = "\<lambda>r. case r of Inl e \<Rightarrow> True | Inr s \<Rightarrow> P s"])
       (use assms(1-4) in \<open>simp_all add: observerEntry_keeps\<close>)
  then show ?thesis
    using assms(5) by (simp add: observerCallback_def)
qed

lemma run_keeps:
  assumes A: "\<And>j s. P s \<Longrightarrow> P (animateCounter j s)"
    and F: "\<And>s. P s \<Longrightarrow> P (fireTimer s)"
    and U: "\<And>j s. P s \<Longrightarrow> P (unobserve j s)"
    and D: "\<And>j b s. P s \<Longrightarrow> P (emit (Delivered j b) s)"
    and "P s" "ResetCalled \<notin> set acts" "run acts s = Inr s'"
  shows "P s'"
  using assms(5-7)
proof (induction acts arbitrary: s)
  case Nil
  then show ?case by simp
next
  case (Cons a acts)
  from Cons.prems(3) obtain s1 where s1: "perform a s = Inr s1" and rest: "run acts s1 = Inr s'"
    by (auto split: sum.splits)
  have "P s1"
  proof (cases a)
    case TimerFires
    with s1 Cons.prems(1) show ?thesis by (auto simp: F)
  next
    case (ObserverFires entries)
    with s1 have "observerCallback entries s = Inr s1" by simp
    from observerCallback_keeps [of P, OF A U D Cons.prems(1) this] show ?thesis .
  next
    case WindowLoads
    with s1 obtain cs where "s1 = fold animateCounter cs s"
      by (auto simp: onWindowLoad_def animateAll_def split: option.splits)
    then show ?thesis
      using fold_keeps [of P animateCounter s cs] A Cons.prems(1) by simp
  next
    case ResetCalled
    with Cons.prems(2) show ?thesis by simp
  qed
  with Cons.IH rest Cons.prems(2) show ?case by simp
qed

lemma setupObserver_keeps:
  assumes A: "\<And>j s. P s \<Longrightarrow> P (animateCounter j s)"
    and O: "\<And>j s. P s \<Longrightarrow> P (observe j s)"
    and N: "\<And>s. P s \<Longrightarrow> P (s\<lparr>observer := Some {}\<rparr>)"
    and "P s" "setupObserver s = Inr s'"
  shows "P s'"
proof (cases "hasIntersectionObserver s")
  case False
  with assms(5) obtain cs where "s' = fold animateCounter cs s"
    by (auto simp: setupObserver_def animateAll_def split: option.splits)
  then show ?thesis
    using fold_keeps [of P animateCounter s cs] A assms(4) by simp
next
  case True
  with assms(5) obtain cs where "s' = fold observe cs (s\<lparr>observer := Some {}\<rparr>)"
    by (auto simp: setupObserver_def split: option.splits)
  then show ?thesis
    using fold_keeps [of P observe "s\<lparr>observer := Some {}\<rparr>" cs] O N assms(4) by simp
qed

lemma checkCounters_keeps:
  assumes A: "\<And>j s. P s \<Longrightarrow> P (animateCounter j s)"
    and U: "\<And>j s. P s \<Longrightarrow> P (unobserve j s)"
    and Pr: "\<And>j b s. P s \<Longrightarrow> P (emit (Probed j b) s)"
    and "P s" "checkCounters s = Inr s'"
  shows "P s'"
proof -
  from assms(5) obtain cs where "s' = fold checkCounter cs s"
    by (auto simp: checkCounters_def split: option.splits)
  moreover have "\<And>j s. P s \<Longrightarrow> P (checkCounter j s)"
    by (rule checkCounter_keeps [of P, OF A U Pr])
  ultimately show ?thesis
    using fold_keeps [of P checkCounter s cs] assms(4) by simp
qed

lemma init_keeps:
  assumes A: "\<And>j s. P s \<Longrightarrow> P (animateCounter j s)"
    and O: "\<And>j s. P s \<Longrightarrow> P (observe j s)"
    and U: "\<And>j s. P s \<Longrightarrow> P (unobserve j s)"
    and Pr: "\<And>j b s. P s \<Longrightarrow> P (emit (Probed j b) s)"
    and N: "\<And>s. P s \<Longrightarrow> P (s\<lparr>observer := Some {}\<rparr>)"
    and C: "\<And>cs s. P s \<Longrightarrow> P (s\<lparr>counters := cs\<rparr>)"
    and "P s" "init scope s = Inr s'"
  shows "P s'"
proof -
  from assms(8) obtain s1 where
    s1: "setupObserver (s\<lparr>counters := Some (querySelectorAll scope s)\<rparr>) = Inr s1"
    and s': "checkCounters s1 = Inr s'"
    by (auto simp: init_def split: sum.splits)
  have "P s1"
    by (rule setupObserver_keeps [of P, OF A O N _ s1]) (simp_all add: C assms(7))
  then show ?thesis
    using checkCounters_keeps [of P, OF A U Pr _ s'] by simp
qed

subsection \<open>The cycle and the queue along a run\<close>




lemma ticking_plain [simp]:
  "ticking (emit ev s) = ticking s" "ticking (observe j s) = ticking s"
  "ticking (unobserve j s) = ticking s" "ticking (s\<lparr>observer := ob\<rparr>) = ticking s"
  "ticking (s\<lparr>counters := cs\<rparr>) = ticking s"
  by (simp_all add: ticking_def)



subsection \<open>The queue drains\<close>












section \<open>The example pages evaluated\<close>

lemma example_values:
  "parseIntAttr (Some ''1500'') = Some 1500" "parseIntAttr (Some ''abc'') = None"
  "parseIntAttr (Some ''24'') = Some 24" "parseIntAttr (Some ''7'') = Some 7"
  "parseInt ''24/7'' = Some 24"
  "stripDigits ''1500+'' = ''+''" "stripDigits ''24/7'' = ''/''" "stripDigits ''abc'' = ''abc''"
  "numberToString 1500 = ''1500''" "numberToString 24 = ''24''" "numberToString 0 = ''0''"
  by code_simp+

lemma example_elements [simp]:
  "elements (examplePage io) 0 = statElement ''1500'' ''1500+'' 100 150"
  "elements (examplePage io) 1 = statElement ''abc'' ''abc'' 200 250"
  "elements (examplePage io) (Suc 0) = statElement ''abc'' ''abc'' 200 250"
  "elements (examplePage io) 2 = statElement ''24'' ''24/7'' 900 1000"
  "elements (examplePage io) 3 = statElement ''7'' ''0'' 3000 3050"
  by (simp_all add: examplePage_def exampleElements_def)

lemma example_fields [simp]:
  "timers (examplePage io) = []" "trace (examplePage io) = []"
  "counters (examplePage io) = None" "observer (examplePage io) = None"
  "hasIntersectionObserver (examplePage io) = io"
  "innerHeight (examplePage io) = 1000" "clientHeight (examplePage io) = 1000"
  by (simp_all add: examplePage_def)

lemma statElement_fields [simp]:
  "classList (statElement dc txt y1 y2) = [''stat-number'']"
  "data_count (statElement dc txt y1 y2) = Some dc"
  "textContent (statElement dc txt y1 y2) = txt"
  "rect_top (statElement dc txt y1 y2) = y1" "rect_bottom (statElement dc txt y1 y2) = y2"
  by (simp_all add: statElement_def)

lemma example_pending [simp]: "pending i (examplePage io)"
  by (simp add: pending_def hasClass_def ownTimers_def examplePage_def exampleElements_def)

lemma example_ticking [simp]: "ticking (examplePage io)"
  by (simp add: ticking_def)


section \<open>Facts about a single reveal\<close>

lemma animateCounter_trace:
  assumes "\<not> hasClass ''animated'' (elements s i)"
    "parseIntAttr (data_count (elements s i)) = Some t"
  shows "trace (animateCounter i s) =
         trace s @ [Marked i, TweenStarted i,
                    TextSet i (hd (frameTexts t (stripDigits (textContent (elements s i)))))] @
         (if 0 < t then [Scheduled i] else [])"
proof (cases "0 < t")
  case True
  then have "frameTexts t (stripDigits (textContent (elements s i))) \<noteq> []"
    by (simp add: frameTexts_def frameValues_def)
  then show ?thesis
    using True
    by (simp add: animateCounter_start [OF assms] updateCounter_zero_running hd_conv_nth)
next
  case False
  then show ?thesis
    by (simp add: animateCounter_start [OF assms] updateCounter_zero_nonpos frameTexts_def
          frameValues_nonpos)
qed

lemma animateCounter_twice: "animateCounter i (animateCounter i s) = animateCounter i s"
proof (cases "hasClass ''animated'' (elements s i)")
  case True
  then show ?thesis by (simp add: animateCounter_marked)
next
  case False
  show ?thesis
  proof (cases "parseIntAttr (data_count (elements s i))")
    case None
    then show ?thesis by (simp add: animateCounter_unparsable)
  next
    case (Some t)
    then show ?thesis
      by (intro animateCounter_marked animateCounter_sets_marker)
  qed
qed



lemma marker_runTimers [simp]:
  "hasClass c (elements (runTimers n s) i) = hasClass c (elements s i)"
  by (induction n arbitrary: s) simp_all

lemma ticking_runTimers: "ticking s \<Longrightarrow> ticking (runTimers n s)"
  by (induction n arbitrary: s) (simp_all add: ticking_fireTimer)




section \<open>The frame-based tween and the suffix\<close>





section \<open>Revealing every counter\<close>

lemma probed_append [simp]: "probed (xs @ ys) = probed xs @ probed ys"
  by (induction xs) (auto split: event.splits)

lemma registered_append [simp]: "registered (xs @ ys) = registered xs @ registered ys"
  by (induction xs) (auto split: event.splits)

lemma animateCounter_quiet:
  "probed (trace (animateCounter j s)) = probed (trace s)"
  "registered (trace (animateCounter j s)) = registered (trace s)"
  by (simp_all add: animateCounter_def updateCounter_def Let_def split: option.splits)

lemma fold_animateCounter_quiet:
  "probed (trace (fold animateCounter cs s)) = probed (trace s) \<and>
   registered (trace (fold animateCounter cs s)) = registered (trace s)"
  by (rule fold_keeps [where P = "\<lambda>s'. probed (trace s') = probed (trace s) \<and>
                                       registered (trace s') = registered (trace s)"])
     (simp_all add: animateCounter_quiet)






section \<open>At most one tween between resets\<close>

lemma once_cong:
  assumes "tweenStarts i (trace s') = tweenStarts i (trace s)"
    "hasClass ''animated'' (elements s' i) = hasClass ''animated'' (elements s i)"
  shows "once i c0 s' = once i c0 s"
  unfolding once_def assms ..

lemma once_animateCounter: "once i c0 s \<Longrightarrow> once i c0 (animateCounter j s)"
proof (cases "j = i")
  case False
  assume "once i c0 s"
  moreover have "once i c0 (animateCounter j s) = once i c0 s"
    using animateCounter_other [OF False, of s] by (intro once_cong) simp_all
  ultimately show ?thesis by simp
next
  case True
  assume o: "once i c0 s"
  show ?thesis
  proof (cases "hasClass ''animated'' (elements s i) \<or>
                parseIntAttr (data_count (elements s i)) = None")
    case True
    with o \<open>j = i\<close> show ?thesis
      by (auto simp: animateCounter_marked animateCounter_unparsable)
  next
    case False
    then obtain t where un: "\<not> hasClass ''animated'' (elements s i)"
      and t: "parseIntAttr (data_count (elements s i)) = Some t"
      by auto
    from o un have "tweenStarts i (trace s) = c0"
      by (auto simp: once_def)
    then show ?thesis
      using \<open>j = i\<close> animateCounter_sets_marker [OF t]
      by (simp add: once_def animateCounter_start [OF un t])
  qed
qed

lemma fireTimer_starts [simp]: "tweenStarts i (trace (fireTimer s)) = tweenStarts i (trace s)"
  by (simp add: fireTimer_def split: list.splits)

lemma once_plain [simp]:
  "once i c0 (fireTimer s) = once i c0 s"
  "once i c0 (observe j s) = once i c0 s"
  "once i c0 (unobserve j s) = once i c0 s"
  "once i c0 (emit (Probed j b) s) = once i c0 s"
  "once i c0 (emit (Delivered j b) s) = once i c0 s"
  "once i c0 (s\<lparr>observer := ob\<rparr>) = once i c0 s"
  "once i c0 (s\<lparr>counters := cs\<rparr>) = once i c0 s"
  by (simp_all add: once_def)

lemma once_run:
  assumes "once i c0 s" "ResetCalled \<notin> set acts" "run acts s = Inr s'"
  shows "once i c0 s'"
  by (rule run_keeps [of "once i c0", OF _ _ _ _ assms]) (simp_all add: once_animateCounter)

lemma once_init:
  assumes "once i c0 s" "init scope s = Inr s'"
  shows "once i c0 s'"
  by (rule init_keeps [of "once i c0", OF _ _ _ _ _ _ assms]) (simp_all add: once_animateCounter)

lemma once_bound: "once i c0 s \<Longrightarrow> tweenStarts i (trace s) \<le> Suc c0"
  by (auto simp: once_def)

lemma runTimers_starts [simp]: "tweenStarts i (trace (runTimers n s)) = tweenStarts i (trace s)"
  by (induction n arbitrary: s) simp_all


lemma counters_fold [simp]:
  "counters (fold animateCounter cs s) = counters s"
  "counters (fold observe cs s) = counters s"
  "counters (fold checkCounter cs s) = counters s"
proof -
  show "counters (fold animateCounter cs s) = counters s"
    by (rule fold_keeps [where P = "\<lambda>s'. counters s' = counters s"]) simp_all
  show "counters (fold observe cs s) = counters s"
    by (rule fold_keeps [where P = "\<lambda>s'. counters s' = counters s"]) simp_all
  show "counters (fold checkCounter cs s) = counters s"
    by (rule fold_keeps [where P = "\<lambda>s'. counters s' = counters s"])
       (simp_all add: checkCounter_def Let_def)
qed

lemma init_result:
  "init scope s =
     Inr (fold checkCounter (querySelectorAll scope s)
            (if hasIntersectionObserver s
             then fold observe (querySelectorAll scope s)
                    (s\<lparr>counters := Some (querySelectorAll scope s), observer := Some {}\<rparr>)
             else fold animateCounter (querySelectorAll scope s)
                    (s\<lparr>counters := Some (querySelectorAll scope s)\<rparr>)))"
  by (simp add: init_def setupObserver_def animateAll_def checkCounters_def)


lemma session_cases:
  assumes "session scope acts s = Inr s'"
  obtains s1 where "init scope s = Inr s1" "run acts s1 = Inr s'"
  using assms by (auto simp: session_def split: sum.splits)

lemma revealedAfter_skip:
  "revealedAfter ev i (x # evs) \<Longrightarrow> x \<noteq> ev \<Longrightarrow> revealedAfter ev i evs"
  by (cases "(ev, i, x # evs)" rule: revealedAfter.cases) auto

lemma revealedAfter_starts: "revealedAfter ev i evs \<Longrightarrow> 1 \<le> tweenStarts i evs"
  by (induction ev i evs rule: revealedAfter.induct) auto

lemma revealed_twice:
  assumes "revealedAfter e1 i evs" "revealedAfter e2 i evs" "e1 \<noteq> e2"
    "e1 \<noteq> Marked i" "e1 \<noteq> TweenStarted i" "e2 \<noteq> Marked i" "e2 \<noteq> TweenStarted i"
  shows "2 \<le> tweenStarts i evs"
  using assms
proof (induction e1 i evs rule: revealedAfter.induct)
  case (1 ev i a b c evs)
  note e = "1.prems"(3-7)
  show ?case
  proof (cases "a = ev \<and> b = Marked i \<and> c = TweenStarted i")
    case True
    with "1.prems"(2) e have "revealedAfter e2 i evs"
      by (auto dest!: revealedAfter_skip)
    from revealedAfter_starts [OF this] True show ?thesis by simp
  next
    case notfirst: False
    with "1.prems"(1) have r1: "revealedAfter ev i (b # c # evs)" by simp
    show ?thesis
    proof (cases "a = e2 \<and> b = Marked i \<and> c = TweenStarted i")
      case True
      with r1 e have "revealedAfter ev i evs"
        by (auto dest!: revealedAfter_skip)
      from revealedAfter_starts [OF this] True show ?thesis by simp
    next
      case False
      with "1.prems"(2) have "revealedAfter e2 i (b # c # evs)" by simp
      from "1.IH" [OF r1 this e] show ?thesis by simp
    qed
  qed
qed simp_all

lemma observer_exists_run:
  assumes "(observer s \<noteq> None) = b" "ResetCalled \<notin> set acts" "run acts s = Inr s'"
  shows "(observer s' \<noteq> None) = b"
  by (rule run_keeps [of "\<lambda>s. (observer s \<noteq> None) = b", OF _ _ _ _ assms]) simp_all

section \<open>Initialisation step by step\<close>

lemma isInViewport_cong:
  assumes "innerHeight s' = innerHeight s" "clientHeight s' = clientHeight s"
    "rect_top (elements s' i) = rect_top (elements s i)"
    "rect_bottom (elements s' i) = rect_bottom (elements s i)"
  shows "isInViewport s' i off = isInViewport s i off"
  by (simp add: isInViewport_def viewportHeight_def assms)

lemma animateCounter_geometry [simp]:
  "innerHeight (animateCounter j s) = innerHeight s"
  "clientHeight (animateCounter j s) = clientHeight s"
  "rect_top (elements (animateCounter j s) i) = rect_top (elements s i)"
  "rect_bottom (elements (animateCounter j s) i) = rect_bottom (elements s i)"
  by (simp_all add: animateCounter_def updateCounter_def Let_def split: option.splits)

lemma isInViewport_plain [simp]:
  "isInViewport (animateCounter j s) i off = isInViewport s i off"
  "isInViewport (emit ev s) i off = isInViewport s i off"
  "isInViewport (observe j s) i off = isInViewport s i off"
  "isInViewport (unobserve j s) i off = isInViewport s i off"
  "isInViewport (s\<lparr>counters := cs\<rparr>) i off = isInViewport s i off"
  "isInViewport (s\<lparr>observer := ob\<rparr>) i off = isInViewport s i off"
  "isInViewport (s\<lparr>counters := cs, observer := ob\<rparr>) i off = isInViewport s i off"
  by (rule isInViewport_cong; simp)+

lemma isInViewport_checkCounter [simp]:
  "isInViewport (checkCounter j s) i off = isInViewport s i off"
  by (simp add: checkCounter_def Let_def)

lemma isInViewport_fold_observe [simp]:
  "isInViewport (fold observe cs s) i off = isInViewport s i off"
  by (rule fold_keeps [where P = "\<lambda>s'. isInViewport s' i off = isInViewport s i off"]) simp_all

lemma checkCounter_observer:
  "observer (checkCounter i s) =
     (if isInViewport s i 100 then map_option (\<lambda>ts. ts - {i}) (observer s) else observer s)"
  by (cases "observer s") (simp_all add: checkCounter_def Let_def)

lemma checkCounter_trace:
  "probed (trace (checkCounter i s)) = probed (trace s) @ [i]"
  "registered (trace (checkCounter i s)) = registered (trace s)"
  by (simp_all add: checkCounter_def Let_def animateCounter_quiet)

lemma fold_checkCounter:
  "observer (fold checkCounter cs s) =
     map_option (\<lambda>ts. ts - {i \<in> set cs. isInViewport s i 100}) (observer s) \<and>
   probed (trace (fold checkCounter cs s)) = probed (trace s) @ cs \<and>
   registered (trace (fold checkCounter cs s)) = registered (trace s)"
proof (induction cs arbitrary: s)
  case Nil
  show ?case by (cases "observer s") simp_all
next
  case (Cons j cs)
  have set_eq: "ts - {j} - {i \<in> set cs. isInViewport s i 100} =
                ts - {i. (i = j \<or> i \<in> set cs) \<and> isInViewport s i 100}"
    if "isInViewport s j 100" for ts :: "nat set"
    using that by auto
  have set_eq': "ts - {i \<in> set cs. isInViewport s i 100} =
                ts - {i. (i = j \<or> i \<in> set cs) \<and> isInViewport s i 100}"
    if "\<not> isInViewport s j 100" for ts :: "nat set"
    using that by auto
  show ?case
    using Cons.IH [of "checkCounter j s"]
    by (cases "observer s")
       (simp_all add: checkCounter_observer checkCounter_trace set_eq set_eq')
qed

lemma fold_observe:
  "observer (fold observe cs s) = map_option (\<lambda>ts. ts \<union> set cs) (observer s) \<and>
   trace (fold observe cs s) = trace s @ map Registered cs"
proof (induction cs arbitrary: s)
  case Nil
  show ?case by (cases "observer s") simp_all
next
  case (Cons j cs)
  show ?case
    using Cons.IH [of "observe j s"] by (cases "observer s") simp_all
qed

lemma probed_map_Registered [simp]: "probed (map Registered cs) = []"
  by (induction cs) simp_all

lemma registered_map_Registered [simp]: "registered (map Registered cs) = cs"
  by (induction cs) simp_all

lemma fold_observe_fields [simp]:
  "elements (fold observe cs s) = elements s" "timers (fold observe cs s) = timers s"
proof -
  show "elements (fold observe cs s) = elements s"
    by (rule fold_keeps [where P = "\<lambda>s'. elements s' = elements s"]) simp_all
  show "timers (fold observe cs s) = timers s"
    by (rule fold_keeps [where P = "\<lambda>s'. timers s' = timers s"]) simp_all
qed

lemma animateCounter_marker_iff:
  "hasClass ''animated'' (elements (animateCounter j s) i) \<longleftrightarrow>
     hasClass ''animated'' (elements s i) \<or>
     (j = i \<and> parseIntAttr (data_count (elements s i)) \<noteq> None)"
proof (cases "j = i")
  case False
  then show ?thesis using animateCounter_other(1) [OF False, of s] by simp
next
  case True
  show ?thesis
  proof (cases "parseIntAttr (data_count (elements s i))")
    case None
    with True show ?thesis by (simp add: animateCounter_unparsable)
  next
    case (Some t)
    with True show ?thesis by (simp add: animateCounter_sets_marker)
  qed
qed

lemma animateCounter_data_count [simp]:
  "data_count (elements (animateCounter j s) i) = data_count (elements s i)"
  by (simp add: animateCounter_def updateCounter_def Let_def split: option.splits)

lemma checkCounter_data_count [simp]:
  "data_count (elements (checkCounter j s) i) = data_count (elements s i)"
  by (simp add: checkCounter_def Let_def)

lemma checkCounter_marker_iff:
  "hasClass ''animated'' (elements (checkCounter j s) i) \<longleftrightarrow>
     hasClass ''animated'' (elements s i) \<or>
     (j = i \<and> isInViewport s i 100 \<and> parseIntAttr (data_count (elements s i)) \<noteq> None)"
  by (auto simp: checkCounter_def Let_def animateCounter_marker_iff)

lemma fold_checkCounter_marker_iff:
  "hasClass ''animated'' (elements (fold checkCounter cs s) i) \<longleftrightarrow>
     hasClass ''animated'' (elements s i) \<or>
     (i \<in> set cs \<and> isInViewport s i 100 \<and> parseIntAttr (data_count (elements s i)) \<noteq> None)"
proof (induction cs arbitrary: s)
  case Nil
  show ?case by simp
next
  case (Cons j cs)
  show ?case
    using Cons.IH [of "checkCounter j s"]
    by (auto simp: checkCounter_marker_iff)
qed

lemma init_marker_iff:
  assumes "hasIntersectionObserver s" "init scope s = Inr s'"
  shows "hasClass ''animated'' (elements s' i) \<longleftrightarrow>
     hasClass ''animated'' (elements s i) \<or>
     (i \<in> set (querySelectorAll scope s) \<and> isInViewport s i 100 \<and>
      parseIntAttr (data_count (elements s i)) \<noteq> None)"
  using assms by (auto simp: init_result fold_checkCounter_marker_iff)

lemma init_shape:
  "(hasIntersectionObserver s \<longrightarrow>
      setupObserver (s\<lparr>counters := Some (querySelectorAll scope s)\<rparr>) =
        Inr (fold observe (querySelectorAll scope s)
               (s\<lparr>counters := Some (querySelectorAll scope s), observer := Some {}\<rparr>)) \<and>
      trace (fold observe (querySelectorAll scope s)
               (s\<lparr>counters := Some (querySelectorAll scope s), observer := Some {}\<rparr>)) =
        trace s @ map Registered (querySelectorAll scope s) \<and>
      observer (fold observe (querySelectorAll scope s)
               (s\<lparr>counters := Some (querySelectorAll scope s), observer := Some {}\<rparr>)) =
        Some (set (querySelectorAll scope s)) \<and>
      init scope s =
        checkCounters (fold observe (querySelectorAll scope s)
               (s\<lparr>counters := Some (querySelectorAll scope s), observer := Some {}\<rparr>)) \<and>
      observedOf (init scope s) =
        Some {i \<in> set (querySelectorAll scope s). \<not> isInViewport s i 100} \<and>
      registered (traceOf (init scope s)) = registered (trace s) @ querySelectorAll scope s \<and>
      (\<forall>s' i. init scope s = Inr s' \<longrightarrow>
         (hasClass ''animated'' (elements s' i) \<longleftrightarrow>
            hasClass ''animated'' (elements s i) \<or>
            (i \<in> set (querySelectorAll scope s) \<and> isInViewport s i 100 \<and>
             parseIntAttr (data_count (elements s i)) \<noteq> None)))) \<and>
   probed (traceOf (init scope s)) = probed (trace s) @ querySelectorAll scope s \<and>
   (\<not> hasIntersectionObserver s \<longrightarrow>
      registered (traceOf (init scope s)) = registered (trace s) \<and>
      (observer s = None \<longrightarrow> observedOf (init scope s) = None))"
proof -
  let ?cs = "querySelectorAll scope s"
  let ?s1 = "fold observe ?cs (s\<lparr>counters := Some ?cs, observer := Some {}\<rparr>)"
  let ?s2 = "fold animateCounter ?cs (s\<lparr>counters := Some ?cs\<rparr>)"
  have o1: "observer ?s1 = Some (set ?cs)" "trace ?s1 = trace s @ map Registered ?cs"
    using fold_observe [of ?cs "s\<lparr>counters := Some ?cs, observer := Some {}\<rparr>"] by simp_all
  have q2: "probed (trace ?s2) = probed (trace s)" "registered (trace ?s2) = registered (trace s)"
    using fold_animateCounter_quiet [of ?cs "s\<lparr>counters := Some ?cs\<rparr>"] by simp_all
  have ob2: "observer ?s2 = observer s"
    by (rule fold_keeps [where P = "\<lambda>s'. observer s' = observer s"]) simp_all
  have set_eq: "set ?cs - {i \<in> set ?cs. isInViewport s i 100} =
                {i \<in> set ?cs. \<not> isInViewport s i 100}"
    by auto
  show ?thesis
  proof (cases "hasIntersectionObserver s")
    case True
    have marks: "\<forall>s' i. init scope s = Inr s' \<longrightarrow>
         (hasClass ''animated'' (elements s' i) \<longleftrightarrow>
            hasClass ''animated'' (elements s i) \<or>
            (i \<in> set ?cs \<and> isInViewport s i 100 \<and>
             parseIntAttr (data_count (elements s i)) \<noteq> None))"
      using init_marker_iff [OF True] by blast
    have "setupObserver (s\<lparr>counters := Some ?cs\<rparr>) = Inr ?s1 \<and>
          trace ?s1 = trace s @ map Registered ?cs \<and> observer ?s1 = Some (set ?cs) \<and>
          init scope s = checkCounters ?s1 \<and>
          observedOf (init scope s) = Some {i \<in> set ?cs. \<not> isInViewport s i 100} \<and>
          registered (traceOf (init scope s)) = registered (trace s) @ ?cs \<and>
          probed (traceOf (init scope s)) = probed (trace s) @ ?cs"
      using True fold_checkCounter [of ?cs ?s1] o1
      by (simp add: init_result setupObserver_def checkCounters_def traceOf_def observedOf_def
            set_eq)
    with marks True show ?thesis by blast
  next
    case False
    then show ?thesis
      using fold_checkCounter [of ?cs ?s2] q2 ob2
      by (cases "observer s") (simp_all add: init_result traceOf_def observedOf_def)
  qed
qed

lemma fold_animateCounter_data_count [simp]:
  "data_count (elements (fold animateCounter cs s) i) = data_count (elements s i)"
  by (rule fold_keeps [where P = "\<lambda>s'. data_count (elements s' i) = data_count (elements s i)"])
     simp_all



section \<open>Reset\<close>

lemma stripDigits_idem [simp]: "stripDigits (stripDigits txt) = stripDigits txt"
  by (simp add: stripDigits_def)

lemma stripDigits_zero [simp]: "stripDigits (CHR ''0'' # txt) = stripDigits txt"
  by (simp add: stripDigits_def isDigit_def)

lemma resetCounter_other:
  "j \<noteq> i \<Longrightarrow> elements (resetCounter j s) i = elements s i"
  by (simp add: resetCounter_def Let_def)

lemma resetCounter_fields [simp]:
  "timers (resetCounter j s) = timers s" "observer (resetCounter j s) = observer s"
  "counters (resetCounter j s) = counters s"
  by (simp_all add: resetCounter_def Let_def)

lemma resetCounter_self:
  "textContent (elements (resetCounter i s) i) = ''0'' @ stripDigits (textContent (elements s i))"
  "\<not> hasClass ''animated'' (elements (resetCounter i s) i)"
  "data_count (elements (resetCounter i s) i) = data_count (elements s i)"
  by (simp_all add: resetCounter_def Let_def hasClass_def)

lemma resetCounter_suffix:
  "stripDigits (textContent (elements (resetCounter j s) i)) =
   stripDigits (textContent (elements s i))"
  by (cases "j = i") (simp_all add: resetCounter_other resetCounter_self)

lemma resetCounter_data_count:
  "data_count (elements (resetCounter j s) i) = data_count (elements s i)"
  by (cases "j = i") (simp_all add: resetCounter_other resetCounter_self)

lemma resetCounter_keeps_reset:
  assumes "textContent (elements s i) = ''0'' @ sfx" "stripDigits sfx = sfx"
    "\<not> hasClass ''animated'' (elements s i)"
  shows "textContent (elements (resetCounter j s) i) = ''0'' @ sfx \<and>
         \<not> hasClass ''animated'' (elements (resetCounter j s) i)"
  using assms by (cases "j = i") (simp_all add: resetCounter_other resetCounter_self)

lemma fold_resetCounter:
  "i \<in> set cs \<Longrightarrow>
   textContent (elements (fold resetCounter cs s) i) =
     ''0'' @ stripDigits (textContent (elements s i)) \<and>
   \<not> hasClass ''animated'' (elements (fold resetCounter cs s) i)"
proof (induction cs arbitrary: s)
  case Nil
  then show ?case by simp
next
  case (Cons j cs)
  show ?case
  proof (cases "j = i")
    case True
    let ?sfx = "stripDigits (textContent (elements s i))"
    have "textContent (elements s' i) = ''0'' @ ?sfx \<and> \<not> hasClass ''animated'' (elements s' i) \<Longrightarrow>
          textContent (elements (resetCounter k s') i) = ''0'' @ ?sfx \<and>
          \<not> hasClass ''animated'' (elements (resetCounter k s') i)" for k s'
      using resetCounter_keeps_reset [of s' i ?sfx k] by simp
    moreover have "textContent (elements (resetCounter i s) i) = ''0'' @ ?sfx \<and>
          \<not> hasClass ''animated'' (elements (resetCounter i s) i)"
      using resetCounter_self [of i s] by simp
    ultimately have "textContent (elements (fold resetCounter cs (resetCounter i s)) i) = ''0'' @ ?sfx \<and>
          \<not> hasClass ''animated'' (elements (fold resetCounter cs (resetCounter i s)) i)"
      by (rule fold_keeps [where P = "\<lambda>s'. textContent (elements s' i) = ''0'' @ ?sfx \<and>
                                            \<not> hasClass ''animated'' (elements s' i)"])
    with True show ?thesis by simp
  next
    case False
    with Cons.prems have "i \<in> set cs" by simp
    from Cons.IH [OF this, of "resetCounter j s"] show ?thesis
      by (simp add: resetCounter_suffix)
  qed
qed

lemma fold_resetCounter_fields [simp]:
  "timers (fold resetCounter cs s) = timers s"
  "observer (fold resetCounter cs s) = observer s"
  "data_count (elements (fold resetCounter cs s) i) = data_count (elements s i)"
proof -
  show "timers (fold resetCounter cs s) = timers s"
    by (rule fold_keeps [where P = "\<lambda>s'. timers s' = timers s"]) simp_all
  show "observer (fold resetCounter cs s) = observer s"
    by (rule fold_keeps [where P = "\<lambda>s'. observer s' = observer s"]) simp_all
  show "data_count (elements (fold resetCounter cs s) i) = data_count (elements s i)"
    by (rule fold_keeps [where P = "\<lambda>s'. data_count (elements s' i) = data_count (elements s i)"])
       (simp_all add: resetCounter_data_count)
qed

lemma reset_result:
  "counters s = Some cs \<Longrightarrow>
   reset s = Inr (if observer s \<noteq> None then fold observe cs (fold resetCounter cs s)
                  else fold resetCounter cs s)"
  by (simp add: reset_def Let_def)

section \<open>More values of the example pages\<close>

lemma stripDigits_Nil [simp]: "stripDigits [] = []"
  by (simp add: stripDigits_def)

lemma more_values:
  "numberToString 7 = ''7''" "stripDigits ''0'' = ''''"
  "querySelectorAll [0, 1, 2, 3] (examplePage io) = [0, 1, 2, 3]"
  by code_simp+

lemma example_not_in_view:
  "{i \<in> set [0, 1, 2, 3]. \<not> isInViewport (examplePage True) i 100} = {3}"
  by code_simp



lemma example_sessions:
  "\<not> isl (session [0, 1, 2, 3] [TimerFires] (examplePage True))"
  "\<not> isl (session [0, 1, 2, 3] [ObserverFires [(3, True)], TimerFires, WindowLoads]
          (examplePage True))"
  by code_simp+


section \<open>The timer-based tween\<close>



section \<open>Revealing twice\<close>

text \<open>
  C2 (as amended). A second \<open>animateCounter\<close> on the same element changes nothing: the page
  after two calls is the page after one. For an element without the marker whose
  \<^verbatim>\<open>data-count\<close> parses, exactly one tween is started by the two calls; the first call sets
  the marker before it writes the first frame and schedules the timer, and the second call
  finds the marker. For an element that carries the marker already or whose
  \<^verbatim>\<open>data-count\<close> does not parse, the two calls start no tween.
\<close>

theorem reveal_twice:
  "animateCounter i (animateCounter i s) = animateCounter i s \<and>
   (\<not> hasClass ''animated'' (elements s i) \<and>
    parseIntAttr (data_count (elements s i)) = Some t \<longrightarrow>
      tweenStarts i (trace (animateCounter i (animateCounter i s))) =
        Suc (tweenStarts i (trace s)) \<and>
      hasClass ''animated'' (elements (animateCounter i s) i) \<and>
      trace (animateCounter i s) =
        trace s @ [Marked i, TweenStarted i,
                   TextSet i (hd (frameTexts t (stripDigits (textContent (elements s i)))))] @
        (if 0 < t then [Scheduled i] else [])) \<and>
   (hasClass ''animated'' (elements s i) \<or>
    parseIntAttr (data_count (elements s i)) = None \<longrightarrow>
      tweenStarts i (trace (animateCounter i (animateCounter i s))) = tweenStarts i (trace s))"
  by (auto simp: animateCounter_twice animateCounter_trace animateCounter_sets_marker
        animateCounter_marked animateCounter_unparsable)

theorem reveal_twice_witness:
  "tweenStarts 0 (trace (animateCounter 0 (animateCounter 0 (examplePage True)))) = 1 \<and>
   trace (animateCounter 0 (examplePage True)) =
     [Marked 0, TweenStarted 0, TextSet 0 (hd (frameTexts 1500 ''+'')), Scheduled 0]"
  using reveal_twice [of 0 "examplePage True" 1500]
  by (simp add: example_values hasClass_def)

text \<open>
  C2 as stated fails for element 1 of the example page, whose \<^verbatim>\<open>data-count\<close> is
  \<^verbatim>\<open>abc\<close>: two calls of \<open>animateCounter\<close> start no tween, not one.
\<close>

theorem reveal_twice_counterexample:
  "tweenStarts 1 (trace (animateCounter 1 (animateCounter 1 (examplePage True)))) = 0"
  by (simp add: animateCounter_unparsable example_values)

section \<open>The fallback without an observer\<close>



section \<open>Reset of the counters\<close>

text \<open>
  C4 (as amended). After \<open>reset\<close>, called once the counters have been collected, the text of
  every counter is \<^verbatim>\<open>0\<close> followed by its text without the digits, the marker is removed, and
  the \<^verbatim>\<open>data-count\<close> and the suffix are what they were. If an observer exists, every counter
  is registered with it again; if none exists (the fallback), nothing is registered. A counter
  with no tween in flight is then in the state of a first reveal, and \<open>animateCounter\<close> starts
  a tween on it whenever its \<^verbatim>\<open>data-count\<close> parses.
\<close>

theorem reset_restores:
  assumes "counters s = Some cs" "i \<in> set cs"
  shows "(\<exists>s'. reset s = Inr s') \<and>
         (\<forall>s'. reset s = Inr s' \<longrightarrow>
            textContent (elements s' i) = ''0'' @ stripDigits (textContent (elements s i)) \<and>
            \<not> hasClass ''animated'' (elements s' i) \<and>
            observer s' = map_option (\<lambda>ts. ts \<union> set cs) (observer s) \<and>
            data_count (elements s' i) = data_count (elements s i) \<and>
            stripDigits (textContent (elements s' i)) = stripDigits (textContent (elements s i)) \<and>
            (ownTimers i s = [] \<longrightarrow> pending i s') \<and>
            (\<forall>t. parseIntAttr (data_count (elements s i)) = Some t \<longrightarrow>
                 tweenStarts i (trace (animateCounter i s')) = Suc (tweenStarts i (trace s'))))"
proof -
  let ?r = "fold resetCounter cs s"
  let ?s2 = "if observer s \<noteq> None then fold observe cs ?r else ?r"
  have res: "reset s = Inr ?s2"
    using assms(1) by (rule reset_result)
  have el: "elements ?s2 = elements ?r" and tm: "timers ?s2 = timers s" by simp_all
  note fr = fold_resetCounter [OF assms(2), of s]
  have text_eq: "textContent (elements ?s2 i) = ''0'' @ stripDigits (textContent (elements s i))"
    and un: "\<not> hasClass ''animated'' (elements ?s2 i)"
    using fr unfolding el by simp_all
  have ob: "observer ?s2 = map_option (\<lambda>ts. ts \<union> set cs) (observer s)"
    using fold_observe [of cs ?r] by (cases "observer s") simp_all
  have dc: "data_count (elements ?s2 i) = data_count (elements s i)"
    unfolding el by simp
  have sfx: "stripDigits (textContent (elements ?s2 i)) = stripDigits (textContent (elements s i))"
    unfolding text_eq by simp
  have pend: "pending i ?s2" if "ownTimers i s = []"
    using that un tm by (simp add: pending_def ownTimers_def)
  have start: "tweenStarts i (trace (animateCounter i ?s2)) = Suc (tweenStarts i (trace ?s2))"
    if "parseIntAttr (data_count (elements s i)) = Some t" for t
  proof -
    from that dc have p: "parseIntAttr (data_count (elements ?s2 i)) = Some t" by simp
    show ?thesis
      by (simp only: animateCounter_start [OF un p] updateCounter_starts) simp
  qed
  have "\<exists>s'. reset s = Inr s'"
    unfolding res by simp
  moreover have "\<forall>s'. reset s = Inr s' \<longrightarrow>
            textContent (elements s' i) = ''0'' @ stripDigits (textContent (elements s i)) \<and>
            \<not> hasClass ''animated'' (elements s' i) \<and>
            observer s' = map_option (\<lambda>ts. ts \<union> set cs) (observer s) \<and>
            data_count (elements s' i) = data_count (elements s i) \<and>
            stripDigits (textContent (elements s' i)) = stripDigits (textContent (elements s i)) \<and>
            (ownTimers i s = [] \<longrightarrow> pending i s') \<and>
            (\<forall>t. parseIntAttr (data_count (elements s i)) = Some t \<longrightarrow>
                 tweenStarts i (trace (animateCounter i s')) = Suc (tweenStarts i (trace s')))"
    unfolding res using text_eq un ob dc sfx pend start by blast
  ultimately show ?thesis ..
qed

theorem reset_restores_witness:
  "textContent (elements (projr (reset ((examplePage True)
      \<lparr>counters := Some [0, 1, 2, 3], observer := Some {3}\<rparr>))) 0) = ''0+'' \<and>
   observer (projr (reset ((examplePage True)
      \<lparr>counters := Some [0, 1, 2, 3], observer := Some {3}\<rparr>))) = Some ({3} \<union> set [0, 1, 2, 3])"
proof -
  let ?P = "(examplePage True)\<lparr>counters := Some [0, 1, 2, 3], observer := Some {3}\<rparr>"
  have a: "counters ?P = Some [0, 1, 2, 3]" "0 \<in> set [0, 1, 2, 3 :: nat]"
    by simp_all
  note main = reset_restores [OF a]
  from main [THEN conjunct1] obtain s' where "reset ?P = Inr s'"
    by (rule exE)
  then have r: "reset ?P = Inr (projr (reset ?P))" by simp
  have e: "''0'' @ stripDigits (textContent (elements ?P 0)) = ''0+''"
    "map_option (\<lambda>ts. ts \<union> set [0, 1, 2, 3]) (observer ?P) = Some ({3} \<union> set [0, 1, 2, 3])"
    by (simp_all add: example_values)
  note at = main [THEN conjunct2, rule_format, OF r, unfolded e]
  from at [THEN conjunct1] at [THEN conjunct2, THEN conjunct2, THEN conjunct1]
  show ?thesis by (intro conjI)
qed

text \<open>
  C4 as stated fails without an observer: on the example page without
  \<^verbatim>\<open>IntersectionObserver\<close>, initialisation followed by \<open>reset\<close> ends normally, there is no
  observer afterwards, and no element was ever registered.
\<close>

theorem reset_fallback_counterexample:
  "\<not> isl (session [0, 1, 2, 3] [ResetCalled] (examplePage False)) \<and>
   observedOf (session [0, 1, 2, 3] [ResetCalled] (examplePage False)) = None \<and>
   registered (traceOf (session [0, 1, 2, 3] [ResetCalled] (examplePage False))) = []"
  by code_simp

section \<open>Viewport probe: the predicate computed\<close>

text \<open>
  C5 (as amended). \<open>isInViewport\<close> is true exactly when the top of the rectangle is at most
  85 percent of the viewport height plus the offset and the bottom is at least minus the offset.
  So, for an offset that is not negative, an element whose top is at or above 85 percent of the
  viewport height and whose bottom is not negative is in view; an element whose top lies lower
  than 85 percent of the viewport height plus the offset is not; and an element whose bottom is
  less than minus the offset is not. The probe is a function of the page: it changes nothing.
\<close>

theorem isInViewport_iff:
  "(isInViewport s el offset \<longleftrightarrow>
      rect_top (elements s el) \<le> viewportHeight s * (85 / 100) + offset \<and>
      rect_bottom (elements s el) \<ge> - offset) \<and>
   (0 \<le> offset \<and> rect_top (elements s el) \<le> viewportHeight s * (85 / 100) \<and>
      0 \<le> rect_bottom (elements s el) \<longrightarrow> isInViewport s el offset) \<and>
   (viewportHeight s * (85 / 100) + offset < rect_top (elements s el) \<longrightarrow>
      \<not> isInViewport s el offset) \<and>
   (rect_bottom (elements s el) < - offset \<longrightarrow> \<not> isInViewport s el offset)"
  by (auto simp: isInViewport_def)

theorem isInViewport_iff_witness:
  "isInViewport (examplePage True) 0 100 \<and> \<not> isInViewport (examplePage True) 3 100"
  using isInViewport_iff [of "examplePage True" 0 100] isInViewport_iff [of "examplePage True" 3 100]
  by (simp add: examplePage_def exampleElements_def statElement_def viewportHeight_def)

text \<open>
  The sentence of C5 about an element whose top is below 85 percent of the viewport height
  fails. Element 2 has its top at 900 in a window 1000 high, lower than 850, and its bottom at
  1000; with offset 0 it is not in view. Element 0 has its top at 100, a smaller number than
  850, and its bottom at 150; with offset -200 it is not in view either.
\<close>

theorem isInViewport_below_counterexample:
  "viewportHeight (examplePage True) * (85 / 100) < rect_top (elements (examplePage True) 2) \<and>
   0 \<le> rect_bottom (elements (examplePage True) 2) \<and>
   \<not> isInViewport (examplePage True) 2 0 \<and>
   rect_top (elements (examplePage True) 0) < viewportHeight (examplePage True) * (85 / 100) \<and>
   0 \<le> rect_bottom (elements (examplePage True) 0) \<and>
   \<not> isInViewport (examplePage True) 0 (- 200)"
  by (simp add: isInViewport_def examplePage_def exampleElements_def statElement_def
        viewportHeight_def)

section \<open>A target that is no number\<close>

text \<open>
  C6. When the \<^verbatim>\<open>data-count\<close> of an element does not parse to an integer,
  \<open>animateCounter\<close> returns the page as it was: the text of the element is untouched, no
  timer is scheduled, nothing is recorded, and the call ends normally.
\<close>

theorem unparsable_target_skipped:
  "parseIntAttr (data_count (elements s i)) = None \<Longrightarrow>
   animateCounter i s = s \<and>
   textContent (elements (animateCounter i s) i) = textContent (elements s i) \<and>
   timers (animateCounter i s) = timers s \<and> trace (animateCounter i s) = trace s"
  by (simp add: animateCounter_unparsable)

theorem unparsable_target_skipped_witness:
  "parseIntAttr (data_count (elements (examplePage True) 1)) = None \<and>
   animateCounter 1 (examplePage True) = examplePage True \<and>
   textContent (elements (animateCounter 1 (examplePage True)) 1) = ''abc'' \<and>
   timers (animateCounter 1 (examplePage True)) = []"
  using unparsable_target_skipped [of "examplePage True" 1]
  by (simp add: example_values)

section \<open>The order of registration and probe\<close>

text \<open>
  C7 (as amended). When \<^verbatim>\<open>IntersectionObserver\<close> is available, initialisation first
  registers every counter with a new observer, in document order, and only then evaluates the
  viewport probe of every counter, on the page where all of them are registered; a counter that
  the probe finds in view has \<open>animateCounter\<close> called on it and is unregistered. So after
  initialisation the observer watches exactly the counters that were not in view, no counter
  in view is still registered, and an element carries the marker exactly when it carried it
  before or is a counter in view whose \<^verbatim>\<open>data-count\<close> parses. The probe of every counter is
  evaluated whether or not the observer is available; without it nothing is registered.
\<close>

theorem init_registers_then_probes:
  "(hasIntersectionObserver s \<longrightarrow>
      setupObserver (s\<lparr>counters := Some (querySelectorAll scope s)\<rparr>) =
        Inr (fold observe (querySelectorAll scope s)
               (s\<lparr>counters := Some (querySelectorAll scope s), observer := Some {}\<rparr>)) \<and>
      trace (fold observe (querySelectorAll scope s)
               (s\<lparr>counters := Some (querySelectorAll scope s), observer := Some {}\<rparr>)) =
        trace s @ map Registered (querySelectorAll scope s) \<and>
      observer (fold observe (querySelectorAll scope s)
               (s\<lparr>counters := Some (querySelectorAll scope s), observer := Some {}\<rparr>)) =
        Some (set (querySelectorAll scope s)) \<and>
      init scope s =
        checkCounters (fold observe (querySelectorAll scope s)
               (s\<lparr>counters := Some (querySelectorAll scope s), observer := Some {}\<rparr>)) \<and>
      observedOf (init scope s) =
        Some {i \<in> set (querySelectorAll scope s). \<not> isInViewport s i 100} \<and>
      registered (traceOf (init scope s)) = registered (trace s) @ querySelectorAll scope s \<and>
      (\<forall>s' i. init scope s = Inr s' \<longrightarrow>
         (hasClass ''animated'' (elements s' i) \<longleftrightarrow>
            hasClass ''animated'' (elements s i) \<or>
            (i \<in> set (querySelectorAll scope s) \<and> isInViewport s i 100 \<and>
             parseIntAttr (data_count (elements s i)) \<noteq> None)))) \<and>
   probed (traceOf (init scope s)) = probed (trace s) @ querySelectorAll scope s \<and>
   (\<not> hasIntersectionObserver s \<longrightarrow>
      registered (traceOf (init scope s)) = registered (trace s) \<and>
      (observer s = None \<longrightarrow> observedOf (init scope s) = None))"
  by (rule init_shape)

theorem init_registers_then_probes_witness:
  "observedOf (init [0, 1, 2, 3] (examplePage True)) = Some {3} \<and>
   registered (traceOf (init [0, 1, 2, 3] (examplePage True))) = [0, 1, 2, 3] \<and>
   probed (traceOf (init [0, 1, 2, 3] (examplePage True))) = [0, 1, 2, 3] \<and>
   registered (traceOf (init [0, 1, 2, 3] (examplePage False))) = [] \<and>
   observedOf (init [0, 1, 2, 3] (examplePage False)) = None"
proof -
  note main = init_registers_then_probes [of "examplePage True" "[0, 1, 2, 3]",
      unfolded more_values example_not_in_view]
  note fallback = init_registers_then_probes [of "examplePage False" "[0, 1, 2, 3]",
      unfolded more_values]
  have io: "hasIntersectionObserver (examplePage True)"
    "\<not> hasIntersectionObserver (examplePage False)"
    by simp_all
  have t: "registered (trace (examplePage True)) @ [0, 1, 2, 3] = [0, 1, 2, 3]"
    "probed (trace (examplePage True)) @ [0, 1, 2, 3] = [0, 1, 2, 3]"
    "registered (trace (examplePage False)) = []"
    by simp_all
  have ob: "observer (examplePage False) = None" by simp
  note first = main [THEN conjunct1, THEN mp, OF io(1)]
  note last = fallback [THEN conjunct2, THEN conjunct2, THEN mp, OF io(2)]
  from first [THEN conjunct2, THEN conjunct2, THEN conjunct2, THEN conjunct2, THEN conjunct1]
    first [THEN conjunct2, THEN conjunct2, THEN conjunct2, THEN conjunct2, THEN conjunct2,
      THEN conjunct1, unfolded t]
    main [THEN conjunct2, THEN conjunct1, unfolded t]
    last [THEN conjunct1, unfolded t]
    last [THEN conjunct2, THEN mp, OF ob]
  show ?thesis by (intro conjI)
qed

text \<open>
  C7 as stated fails: on the example page the first events of initialisation are the
  registrations of all four counters, and the probe of element 0, which reveals it, comes after
  them.
\<close>

theorem init_order_counterexample:
  "take 6 (traceOf (init [0, 1, 2, 3] (examplePage True))) =
     [Registered 0, Registered 1, Registered 2, Registered 3, Probed 0 True, Marked 0]"
  by code_simp

section \<open>The suffix of a tween\<close>




section \<open>The probe and the observer on one element\<close>

text \<open>
  C9 (as amended). In the life of a page without a reset, started with an empty trace and no
  observer, at most one tween is started on any element, so no element is revealed both
  directly after its viewport probe and directly after a report of the observer. An observer
  exists afterwards exactly when \<^verbatim>\<open>IntersectionObserver\<close> was available at initialisation.
  The viewport probe of every counter is evaluated at initialisation in both cases.
\<close>

theorem one_reveal_per_cycle:
  assumes "trace s0 = []" "observer s0 = None" "ResetCalled \<notin> set acts"
    "session scope acts s0 = Inr s'"
  shows "tweenStarts i (trace s') \<le> 1 \<and>
         \<not> (revealedAfter (Probed i True) i (trace s') \<and>
            revealedAfter (Delivered i True) i (trace s')) \<and>
         (observer s' \<noteq> None \<longleftrightarrow> hasIntersectionObserver s0) \<and>
         probed (traceOf (init scope s0)) = querySelectorAll scope s0"
proof -
  from assms(4) obtain s1 where s1: "init scope s0 = Inr s1" and r: "run acts s1 = Inr s'"
    by (rule session_cases)
  have "once i 0 s0" using assms(1) by (simp add: once_def)
  then have "once i 0 s'"
    by (intro once_run [OF _ assms(3) r] once_init [OF _ s1])
  then have bound: "tweenStarts i (trace s') \<le> 1"
    using once_bound by fastforce
  have "\<not> (revealedAfter (Probed i True) i (trace s') \<and>
            revealedAfter (Delivered i True) i (trace s'))"
  proof
    assume "revealedAfter (Probed i True) i (trace s') \<and>
            revealedAfter (Delivered i True) i (trace s')"
    then have "2 \<le> tweenStarts i (trace s')"
      by (intro revealed_twice [of "Probed i True" _ _ "Delivered i True"]) simp_all
    with bound show False by simp
  qed
  moreover have "(observer s1 \<noteq> None) = hasIntersectionObserver s0"
    using init_shape [of s0 scope] s1 assms(2) by (auto simp: observedOf_def)
  then have "(observer s' \<noteq> None) = hasIntersectionObserver s0"
    using assms(3) r by (rule observer_exists_run)
  moreover have "probed (traceOf (init scope s0)) = querySelectorAll scope s0"
    using init_shape [of s0 scope] assms(1) by simp
  ultimately show ?thesis using bound by blast
qed

theorem one_reveal_per_cycle_witness:
  "tweenStarts 3 (trace (projr (session [0, 1, 2, 3]
       [ObserverFires [(3, True)], TimerFires, WindowLoads] (examplePage True)))) \<le> 1 \<and>
   observer (projr (session [0, 1, 2, 3]
       [ObserverFires [(3, True)], TimerFires, WindowLoads] (examplePage True))) \<noteq> None \<and>
   probed (traceOf (init [0, 1, 2, 3] (examplePage True))) = [0, 1, 2, 3]"
proof -
  let ?S = "session [0, 1, 2, 3] [ObserverFires [(3, True)], TimerFires, WindowLoads]
              (examplePage True)"
  have a: "trace (examplePage True) = []" "observer (examplePage True) = None"
    "ResetCalled \<notin> set [ObserverFires [(3, True)], TimerFires, WindowLoads]"
    "?S = Inr (projr ?S)"
    using example_sessions(2) by simp_all
  note main = one_reveal_per_cycle [OF a, of 3, unfolded more_values]
  have io: "hasIntersectionObserver (examplePage True)" by simp
  from main [THEN conjunct1]
    main [THEN conjunct2, THEN conjunct2, THEN conjunct1, THEN iffD2, OF io]
    main [THEN conjunct2, THEN conjunct2, THEN conjunct2]
  show ?thesis by (intro conjI)
qed

text \<open>
  C9 as stated fails over a life with a reset: element 0 of the example page is revealed by
  the viewport probe at initialisation, \<open>reset\<close> registers it again, and the report of the
  observer then reveals it a second time.
\<close>

theorem both_paths_counterexample:
  "observedOf (session [0, 1, 2, 3] [ResetCalled] (examplePage True)) = Some {0, 1, 2, 3} \<and>
   revealedAfter (Probed 0 True) 0
     (traceOf (session [0, 1, 2, 3] [ResetCalled, ObserverFires [(0, True)]] (examplePage True))) \<and>
   revealedAfter (Delivered 0 True) 0
     (traceOf (session [0, 1, 2, 3] [ResetCalled, ObserverFires [(0, True)]] (examplePage True))) \<and>
   tweenStarts 0
     (traceOf (session [0, 1, 2, 3] [ResetCalled, ObserverFires [(0, True)]] (examplePage True))) = 2"
  by code_simp

section \<open>The load handler\<close>



end
